theory Spec2Isabelle
  imports Complex_Main "HOL-Library.AList"
begin

section \<open>Tabular data\<close>

text \<open>
  Both engines receive a pandas DataFrame. The model keeps what the code reads from it:
  the column labels in order, each with the dtype of its column, and the rows. A label may
  occur more than once, as pandas allows. A row maps column labels to cells; a label
  that a row does not mention holds the missing value, as in a frame built from records.
  \<open>len(df)\<close> is the number of rows.

  A cell is a missing float (\<open>NaN\<close>, here \<open>NA\<close>), Python's \<open>None\<close>, a number or a
  string. \<open>isna\<close> holds of the first two; \<open>duplicated\<close> keeps them apart.

  Of a dtype the code reads its printed name (\<open>str(dtype)\<close>). Whether pandas accepts
  \<open>column < number\<close> at all is also decided by the dtype, before any cell is read:
  numeric, boolean and object columns are compared (object columns cell by cell), while
  \<open>datetime64\<close> and other dtypes without an order against numbers raise \<open>TypeError\<close>,
  also for a column without rows. The model keeps that answer beside the name.
\<close>

datatype cell = NA | NoneCell | Num rat | Str string

record pd_dtype =
  dtype_name :: string
  orders_with_numbers :: bool

record dataframe =
  df_columns :: "(string \<times> pd_dtype) list"
  df_rows :: "(string \<times> cell) list list"

definition len_df :: "dataframe \<Rightarrow> nat" where
  "len_df df = length (df_rows df)"

definition column_names :: "dataframe \<Rightarrow> string list" where
  "column_names df = map fst (df_columns df)"

text \<open>\<open>df.empty\<close>: true when either axis has length zero.\<close>

definition df_empty :: "dataframe \<Rightarrow> bool" where
  "df_empty df \<longleftrightarrow> df_rows df = [] \<or> df_columns df = []"

definition cell_at :: "(string \<times> cell) list \<Rightarrow> string \<Rightarrow> cell" where
  "cell_at row col = (case map_of row col of None \<Rightarrow> NA | Some v \<Rightarrow> v)"

text \<open>\<open>df[col]\<close>: the cells of one column, in row order.\<close>

definition column_data :: "dataframe \<Rightarrow> string \<Rightarrow> cell list" where
  "column_data df col = map (\<lambda>row. cell_at row col) (df_rows df)"

section \<open>Quality validation engine (validators.py)\<close>

datatype ValidationSeverity = ERROR | WARNING | INFO

datatype ValidationStatus = PASSED | FAILED | PASSED_WITH_WARNINGS

text \<open>
  \<open>ValidationResult\<close>, without the wall-clock \<open>timestamp\<close>. \<open>failure_percentage\<close> is a
  Python float; the model computes it exactly, which agrees with the float on the two
  values the properties below speak about (0 and 100).
\<close>

record ValidationResult =
  rule_name :: string
  description :: string
  severity :: ValidationSeverity
  passed :: bool
  records_checked :: nat
  records_failed :: nat
  failure_percentage :: rat
  failed_record_ids :: "cell list"
  details :: "(string \<times> string) list"

text \<open>
  A registered rule is the dict \<open>{"name", "description", "func", "severity"}\<close>. The
  predicate either returns \<open>(passed, failed_df)\<close> or raises an exception \<open>e\<close>; the model
  of a raise is \<open>Inl (str e)\<close>.
\<close>

record Rule =
  r_name :: string
  r_description :: string
  r_func :: "dataframe \<Rightarrow> string + (bool \<times> dataframe)"
  r_severity :: ValidationSeverity

record DataQualityReport =
  dq_domain :: string
  dq_source_path :: string
  dq_total_records :: nat
  dq_status :: ValidationStatus
  dq_results :: "ValidationResult list"

record ClinicalDataValidator =
  domain :: string
  rules :: "Rule list"
  results :: "ValidationResult list"

definition ClinicalDataValidator_init :: "string \<Rightarrow> ClinicalDataValidator" where
  "ClinicalDataValidator_init d = \<lparr>domain = d, rules = [], results = []\<rparr>"

text \<open>\<open>add_rule\<close> appends to \<open>self.rules\<close>; the source has no other statement.\<close>

definition add_rule ::
  "ClinicalDataValidator \<Rightarrow> string \<Rightarrow> string \<Rightarrow> (dataframe \<Rightarrow> string + (bool \<times> dataframe))
     \<Rightarrow> ValidationSeverity \<Rightarrow> ClinicalDataValidator" where
  "add_rule v name descr validation_func sev =
     v\<lparr>rules := rules v @
        [\<lparr>r_name = name, r_description = descr, r_func = validation_func, r_severity = sev\<rparr>]\<rparr>"

text \<open>The body of the \<open>for rule in self.rules\<close> loop: the \<open>try\<close> block and its handler.\<close>

definition run_rule :: "Rule \<Rightarrow> dataframe \<Rightarrow> string \<Rightarrow> ValidationResult" where
  "run_rule rule df id_column =
     (let total_records = len_df df in
      case r_func rule df of
        Inr (passed_flag, failed_df) \<Rightarrow>
          (let n_failed = len_df failed_df;
               failure_pct = (if total_records > 0
                              then of_nat n_failed / of_nat total_records * 100 else 0);
               failed_ids = (if \<not> df_empty failed_df \<and> id_column \<in> set (column_names failed_df)
                             then column_data failed_df id_column else [])
           in \<lparr>rule_name = r_name rule, description = r_description rule,
               severity = r_severity rule, passed = passed_flag,
               records_checked = total_records, records_failed = n_failed,
               failure_percentage = failure_pct, failed_record_ids = failed_ids,
               details = []\<rparr>)
      | Inl e \<Rightarrow>
          \<lparr>rule_name = r_name rule, description = r_description rule,
           severity = ERROR, passed = False,
           records_checked = total_records, records_failed = total_records,
           failure_percentage = 100, failed_record_ids = [],
           details = [(''error'', e)]\<rparr>)"

text \<open>The loop itself: one result appended to \<open>self.results\<close> per rule, in list order.\<close>

fun validate_loop ::
  "Rule list \<Rightarrow> dataframe \<Rightarrow> string \<Rightarrow> ValidationResult list \<Rightarrow> ValidationResult list" where
  "validate_loop [] df id_column acc = acc"
| "validate_loop (rule # rest) df id_column acc =
     validate_loop rest df id_column (acc @ [run_rule rule df id_column])"

definition overall_status :: "ValidationResult list \<Rightarrow> ValidationStatus" where
  "overall_status rs =
     (let has_errors = list_ex (\<lambda>r. \<not> passed r \<and> severity r = ERROR) rs;
          has_warnings = list_ex (\<lambda>r. \<not> passed r \<and> severity r = WARNING) rs
      in if has_errors then FAILED
         else if has_warnings then PASSED_WITH_WARNINGS
         else PASSED)"

text \<open>
  \<open>validate\<close> resets \<open>self.results\<close>, runs the loop and returns the report; the updated
  validator is returned beside it.
\<close>

definition validate ::
  "ClinicalDataValidator \<Rightarrow> dataframe \<Rightarrow> string \<Rightarrow> ClinicalDataValidator \<times> DataQualityReport" where
  "validate v df id_column =
     (let total_records = len_df df;
          rs = validate_loop (rules v) df id_column []
      in (v\<lparr>results := rs\<rparr>,
          \<lparr>dq_domain = domain v, dq_source_path = '''',
           dq_total_records = total_records, dq_status = overall_status rs,
           dq_results = rs\<rparr>))"

section \<open>Lineage index and queries (lineage_tracker.py)\<close>

text \<open>
  \<open>LineageQuery\<close> works on the dict form of events. Of an asset dict it reads only
  \<open>"location"\<close> (\<open>None\<close> here: the key is absent, and \<open>.get("location", "")\<close> gives the
  empty string); of an event dict it reads \<open>"input_assets"\<close> and \<open>"output_assets"\<close>
  (an absent key is the empty list).
\<close>

record asset_dict =
  asset_id :: string
  location :: "string option"

record lineage_record =
  event_id :: string
  triggered_by :: string
  input_assets :: "asset_dict list"
  output_assets :: "asset_dict list"

definition location_of :: "asset_dict \<Rightarrow> string" where
  "location_of a = (case location a of None \<Rightarrow> [] | Some l \<Rightarrow> l)"

text \<open>
  The two indexes are dicts from a location to the list of events; a dict is an
  association list in insertion order. \<open>index_get\<close> is \<open>d.get(loc, [])\<close> and
  \<open>index_append\<close> is \<open>if loc not in d: d[loc] = []\<close> followed by \<open>d[loc].append(record)\<close>.
\<close>

type_synonym lineage_index = "(string \<times> lineage_record list) list"

definition index_get :: "lineage_index \<Rightarrow> string \<Rightarrow> lineage_record list" where
  "index_get idx loc = (case map_of idx loc of None \<Rightarrow> [] | Some es \<Rightarrow> es)"

definition index_append :: "lineage_index \<Rightarrow> string \<Rightarrow> lineage_record \<Rightarrow> lineage_index" where
  "index_append idx loc r = AList.update loc (index_get idx loc @ [r]) idx"

record LineageQuery =
  records :: "lineage_record list"
  by_output :: lineage_index
  by_input :: lineage_index

text \<open>\<open>_build_index\<close>: for each record, its input assets, then its output assets.\<close>

definition build_index_record :: "lineage_index \<times> lineage_index \<Rightarrow> lineage_record
    \<Rightarrow> lineage_index \<times> lineage_index" where
  "build_index_record idxs r =
     (let in_idx = foldl (\<lambda>idx a. index_append idx (location_of a) r) (snd idxs) (input_assets r);
          out_idx = foldl (\<lambda>idx a. index_append idx (location_of a) r) (fst idxs) (output_assets r)
      in (out_idx, in_idx))"

definition LineageQuery_init :: "lineage_record list \<Rightarrow> LineageQuery" where
  "LineageQuery_init lineage_records =
     (let idxs = foldl build_index_record ([], []) lineage_records
      in \<lparr>records = lineage_records, by_output = fst idxs, by_input = snd idxs\<rparr>)"

text \<open>
  The local variables of the traversal loop. \<open>get_upstream\<close> and \<open>get_downstream\<close> have
  the same loop body; they differ in the index they read (\<open>by_output\<close> or \<open>by_input\<close>)
  and in the asset list of an event they enqueue (\<open>input_assets\<close> or \<open>output_assets\<close>),
  which are the two parameters \<open>idx\<close> and \<open>nxt\<close> below.
\<close>

record bfs_state =
  queue :: "(string \<times> int) list"
  visited :: "string set"
  result :: "lineage_record list"

text \<open>One iteration of \<open>while queue\<close>, entered with a non-empty queue.\<close>

definition traverse_step ::
  "lineage_index \<Rightarrow> (lineage_record \<Rightarrow> asset_dict list) \<Rightarrow> int \<Rightarrow> bfs_state \<Rightarrow> bfs_state" where
  "traverse_step idx nxt depth s =
     (case queue s of
        [] \<Rightarrow> s
      | (current_loc, current_depth) # rest \<Rightarrow>
          if current_loc \<in> visited s \<or> current_depth > depth then s\<lparr>queue := rest\<rparr>
          else
            (let visited' = insert current_loc (visited s);
                 events = index_get idx current_loc;
                 enqueued = concat (map (\<lambda>event.
                     map (\<lambda>a. (location_of a, current_depth + 1))
                       (filter (\<lambda>a. location_of a \<notin> visited') (nxt event))) events)
             in \<lparr>queue = rest @ enqueued, visited = visited', result = result s @ events\<rparr>))"

function traverse_loop ::
  "lineage_index \<Rightarrow> (lineage_record \<Rightarrow> asset_dict list) \<Rightarrow> int \<Rightarrow> bfs_state \<Rightarrow> bfs_state" where
  "traverse_loop idx nxt depth s =
     (if queue s = [] then s else traverse_loop idx nxt depth (traverse_step idx nxt depth s))"
  by pat_completeness auto
termination
proof (relation "inv_image (less_than <*lex*> less_than)
    (\<lambda>(idx, nxt, depth, s). (card (fst ` set idx - visited s), length (queue s)))")
  show "wf (inv_image (less_than <*lex*> less_than)
    (\<lambda>(idx, nxt, depth, s). (card (fst ` set idx - visited s), length (queue s))))"
    by (intro wf_inv_image wf_lex_prod wf_less_than)
next
  fix idx :: lineage_index and nxt :: "lineage_record \<Rightarrow> asset_dict list"
    and depth :: int and s :: bfs_state
  assume nonempty: "queue s \<noteq> []"
  then obtain current_loc current_depth rest where q: "queue s = (current_loc, current_depth) # rest"
    by (cases "queue s") auto
  let ?keys = "fst ` set idx"
  let ?s' = "traverse_step idx nxt depth s"
  have "card (?keys - visited ?s') < card (?keys - visited s) \<or>
        (card (?keys - visited ?s') = card (?keys - visited s) \<and> length (queue ?s') < length (queue s))"
  proof (cases "current_loc \<in> visited s \<or> current_depth > depth")
    case True
    then show ?thesis using q by (auto simp: traverse_step_def)
  next
    case False
    then have fresh: "current_loc \<notin> visited s" by simp
    have v': "visited ?s' = insert current_loc (visited s)"
      using q False by (simp add: traverse_step_def Let_def)
    show ?thesis
    proof (cases "current_loc \<in> ?keys")
      case True
      have "?keys - visited ?s' \<subset> ?keys - visited s"
        using True fresh v' by auto
      then have "card (?keys - visited ?s') < card (?keys - visited s)"
        by (intro psubset_card_mono) auto
      then show ?thesis by simp
    next
      case notkey: False
      then have "map_of idx current_loc = None"
        by (simp add: map_of_eq_None_iff)
      then have "index_get idx current_loc = []"
        by (simp add: index_get_def)
      then have "queue ?s' = rest"
        using q False by (simp add: traverse_step_def Let_def)
      moreover have "?keys - visited ?s' = ?keys - visited s"
        using notkey v' by auto
      ultimately show ?thesis using q by simp
    qed
  qed
  then show "((idx, nxt, depth, ?s'), (idx, nxt, depth, s))
      \<in> inv_image (less_than <*lex*> less_than)
          (\<lambda>(idx, nxt, depth, s). (card (fst ` set idx - visited s), length (queue s)))"
    by auto
qed

declare traverse_loop.simps [simp del]

definition traverse_start :: "string \<Rightarrow> bfs_state" where
  "traverse_start asset_location = \<lparr>queue = [(asset_location, 0)], visited = {}, result = []\<rparr>"

definition get_upstream :: "LineageQuery \<Rightarrow> string \<Rightarrow> int \<Rightarrow> lineage_record list" where
  "get_upstream q asset_location depth =
     result (traverse_loop (by_output q) input_assets depth (traverse_start asset_location))"

definition get_downstream :: "LineageQuery \<Rightarrow> string \<Rightarrow> int \<Rightarrow> lineage_record list" where
  "get_downstream q asset_location depth =
     result (traverse_loop (by_input q) output_assets depth (traverse_start asset_location))"

text \<open>The set \<open>visited\<close> as the loop leaves it.\<close>

definition upstream_visited :: "LineageQuery \<Rightarrow> string \<Rightarrow> int \<Rightarrow> string set" where
  "upstream_visited q asset_location depth =
     visited (traverse_loop (by_output q) input_assets depth (traverse_start asset_location))"

definition downstream_visited :: "LineageQuery \<Rightarrow> string \<Rightarrow> int \<Rightarrow> string set" where
  "downstream_visited q asset_location depth =
     visited (traverse_loop (by_input q) output_assets depth (traverse_start asset_location))"

section \<open>Schema contract engine (data_contracts.py)\<close>

text \<open>The exceptions that the modelled code can raise.\<close>

datatype error = TypeError | ZeroDivisionError | ValueError | KeyError | AttributeError

datatype CompatibilityMode = BACKWARD | FORWARD | FULL | NONE

datatype ChangeType =
  COLUMN_ADDED | COLUMN_REMOVED | TYPE_CHANGED | NULLABLE_CHANGED
  | CONSTRAINT_ADDED | CONSTRAINT_REMOVED

record SchemaChange =
  change_type :: ChangeType
  column_name :: string
  old_value :: "string option"
  new_value :: "string option"
  is_breaking :: bool
  change_description :: string

record ColumnContract =
  cc_name :: string
  dtype :: string
  nullable :: bool
  unique :: bool
  allowed_values :: "cell list"
  min_value :: "rat option"
  max_value :: "rat option"
  pattern :: "string option"
  cc_description :: string

record DataContract =
  dc_name :: string
  version :: string
  dc_domain :: string
  dc_description :: string
  owner :: string
  columns :: "ColumnContract list"
  compatibility_mode :: CompatibilityMode
  primary_key :: "string list"
  foreign_keys :: "(string \<times> string) list"
  created_at :: string
  updated_at :: string

text \<open>Running a fallible step over a list stops at the first exception.\<close>

fun collect :: "('a \<Rightarrow> error + 'b) \<Rightarrow> 'a list \<Rightarrow> error + 'b list" where
  "collect f [] = Inr []"
| "collect f (x # xs) =
     (case f x of
        Inl e \<Rightarrow> Inl e
      | Inr y \<Rightarrow> (case collect f xs of Inl e \<Rightarrow> Inl e | Inr ys \<Rightarrow> Inr (y # ys)))"

subsection \<open>Loading a contract\<close>

text \<open>
  \<open>DataContract.load\<close> reads a JSON object; the model starts from the parsed object. A
  key of the object may be absent (\<open>None\<close>), and the object may have keys that are not
  fields of the dataclass (\<open>other_keys\<close>). The values are taken to have the types that
  \<open>save\<close> writes; the dataclasses do not check them.
\<close>

record column_json =
  cj_name :: "string option"
  cj_dtype :: "string option"
  cj_nullable :: "bool option"
  cj_unique :: "bool option"
  cj_allowed_values :: "cell list option"
  cj_min_value :: "rat option"
  cj_max_value :: "rat option"
  cj_pattern :: "string option"
  cj_description :: "string option"
  cj_other_keys :: "string list"

record contract_json =
  j_name :: "string option"
  j_version :: "string option"
  j_domain :: "string option"
  j_description :: "string option"
  j_owner :: "string option"
  j_compatibility_mode :: "string option"
  j_primary_key :: "string list option"
  j_foreign_keys :: "(string \<times> string) list option"
  j_columns :: "column_json list option"
  j_created_at :: "string option"
  j_updated_at :: "string option"
  j_other_keys :: "string list"

text \<open>
  \<open>ColumnContract(**col)\<close>: a \<open>TypeError\<close> for a key that is not a field and for a missing
  \<open>name\<close> or \<open>dtype\<close>; the other fields have defaults.
\<close>

definition ColumnContract_of_json :: "column_json \<Rightarrow> error + ColumnContract" where
  "ColumnContract_of_json col =
     (if cj_other_keys col \<noteq> [] then Inl TypeError
      else
        (case (cj_name col, cj_dtype col) of
           (Some n, Some d) \<Rightarrow>
             Inr \<lparr>cc_name = n, dtype = d,
                  nullable = (case cj_nullable col of None \<Rightarrow> True | Some b \<Rightarrow> b),
                  unique = (case cj_unique col of None \<Rightarrow> False | Some b \<Rightarrow> b),
                  allowed_values = (case cj_allowed_values col of None \<Rightarrow> [] | Some vs \<Rightarrow> vs),
                  min_value = cj_min_value col, max_value = cj_max_value col,
                  pattern = cj_pattern col,
                  cc_description = (case cj_description col of None \<Rightarrow> [] | Some s \<Rightarrow> s)\<rparr>
         | _ \<Rightarrow> Inl TypeError))"

text \<open>\<open>CompatibilityMode(value)\<close>: a \<open>ValueError\<close> for a string that is not the value of a member.\<close>

definition CompatibilityMode_of_value :: "string \<Rightarrow> error + CompatibilityMode" where
  "CompatibilityMode_of_value s =
     (if s = ''backward'' then Inr BACKWARD
      else if s = ''forward'' then Inr FORWARD
      else if s = ''full'' then Inr FULL
      else if s = ''none'' then Inr NONE
      else Inl ValueError)"

text \<open>
  \<open>load\<close>, in source order: \<open>data.pop("columns")\<close> (\<open>KeyError\<close>), the column contracts,
  \<open>data["compatibility_mode"]\<close> (\<open>KeyError\<close>, although the dataclass has a default) and
  its conversion, then \<open>cls(**data)\<close>: a \<open>TypeError\<close> for a key that is not a field and for
  a missing field without default. The dataclass has no \<open>__post_init__\<close>. The defaults of
  \<open>created_at\<close> and \<open>updated_at\<close> read the clock, whose answer is the parameter \<open>now\<close>.
\<close>

definition DataContract_load :: "string \<Rightarrow> contract_json \<Rightarrow> error + DataContract" where
  "DataContract_load now data =
     (case j_columns data of
        None \<Rightarrow> Inl KeyError
      | Some cols \<Rightarrow>
          (case collect ColumnContract_of_json cols of
             Inl e \<Rightarrow> Inl e
           | Inr column_contracts \<Rightarrow>
               (case j_compatibility_mode data of
                  None \<Rightarrow> Inl KeyError
                | Some s \<Rightarrow>
                    (case CompatibilityMode_of_value s of
                       Inl e \<Rightarrow> Inl e
                     | Inr mode \<Rightarrow>
                         (if j_other_keys data \<noteq> [] then Inl TypeError
                          else
                            (case (j_name data, j_version data, j_domain data,
                                   j_description data, j_owner data) of
                               (Some n, Some v, Some dmn, Some descr, Some own) \<Rightarrow>
                                 Inr \<lparr>dc_name = n, version = v, dc_domain = dmn,
                                      dc_description = descr, owner = own,
                                      columns = column_contracts, compatibility_mode = mode,
                                      primary_key =
                                        (case j_primary_key data of None \<Rightarrow> [] | Some ks \<Rightarrow> ks),
                                      foreign_keys =
                                        (case j_foreign_keys data of None \<Rightarrow> [] | Some fk \<Rightarrow> fk),
                                      created_at =
                                        (case j_created_at data of None \<Rightarrow> now | Some t \<Rightarrow> t),
                                      updated_at =
                                        (case j_updated_at data of None \<Rightarrow> now | Some t \<Rightarrow> t)\<rparr>
                             | _ \<Rightarrow> Inl TypeError))))))"

subsection \<open>Schema change detection\<close>

record ContractValidator =
  contract :: DataContract
  column_map :: "(string \<times> ColumnContract) list"

text \<open>\<open>{c.name: c for c in contract.columns}\<close>: a later column replaces an earlier one of the same name.\<close>

definition ContractValidator_init :: "DataContract \<Rightarrow> ContractValidator" where
  "ContractValidator_init c =
     \<lparr>contract = c,
      column_map = foldl (\<lambda>m col. AList.update (cc_name col) col m) [] (columns c)\<rparr>"

text \<open>\<open>sub in s\<close> on strings.\<close>

fun starts_with :: "string \<Rightarrow> string \<Rightarrow> bool" where
  "starts_with s [] = True"
| "starts_with [] (c # cs) = False"
| "starts_with (x # xs) (c # cs) = (x = c \<and> starts_with xs cs)"

fun str_contains :: "string \<Rightarrow> string \<Rightarrow> bool" where
  "str_contains [] sub = (sub = [])"
| "str_contains (x # xs) sub = (starts_with (x # xs) sub \<or> str_contains xs sub)"

definition normalize_dtype :: "string \<Rightarrow> string" where
  "normalize_dtype dtype_str =
     (if str_contains dtype_str ''int'' then ''int64''
      else if str_contains dtype_str ''float'' then ''float64''
      else if str_contains dtype_str ''object'' \<or> str_contains dtype_str ''string'' then ''string''
      else if str_contains dtype_str ''datetime'' then ''datetime64''
      else if str_contains dtype_str ''bool'' then ''boolean''
      else dtype_str)"

definition types_compatible :: "string \<Rightarrow> string \<Rightarrow> bool" where
  "types_compatible expected actual =
     (if expected = actual then True
      else if expected = ''float64'' \<and> actual = ''int64'' then True
      else if expected = ''string'' \<and> actual \<in> set [''string'', ''object''] then True
      else False)"

text \<open>
  \<open>df[col].dtype\<close>. For a label that the frame has once, \<open>df[col]\<close> is a column; for a
  label that it has more than once, \<open>df[col]\<close> is a frame, which has no \<open>dtype\<close>:
  \<open>AttributeError\<close>. (\<open>df[col]\<close> for a label that the frame lacks is a \<open>KeyError\<close>.)
\<close>

definition dtype_of :: "dataframe \<Rightarrow> string \<Rightarrow> error + pd_dtype" where
  "dtype_of df col =
     (case filter (\<lambda>(l, d). l = col) (df_columns df) of
        [] \<Rightarrow> Inl KeyError
      | [(l, d)] \<Rightarrow> Inr d
      | _ \<Rightarrow> Inl AttributeError)"

definition quoted :: "string \<Rightarrow> string" where
  "quoted s = CHR 0x27 # s @ [CHR 0x27]"

text \<open>
  The three \<open>for\<close> statements of \<open>detect_schema_changes\<close> run over Python sets, whose iteration
  order is not fixed; the model visits the labels in the order of the frame and of the
  contract. The order decides only the order of the changes in the list.
\<close>

definition detect_schema_changes :: "ContractValidator \<Rightarrow> dataframe \<Rightarrow> error + SchemaChange list" where
  "detect_schema_changes v df =
     (let incoming_columns = remdups (column_names df);
          contract_columns = map fst (column_map v)
      in case collect (\<lambda>col.
              (case dtype_of df col of
                 Inl e \<Rightarrow> Inl e
               | Inr d \<Rightarrow>
                   Inr \<lparr>change_type = COLUMN_ADDED, column_name = col,
                        old_value = None, new_value = Some (dtype_name d),
                        is_breaking = (compatibility_mode (contract v) = FORWARD),
                        change_description =
                          ''New column '' @ quoted col @ '' detected in incoming data''\<rparr>))
            (filter (\<lambda>col. col \<notin> set contract_columns) incoming_columns) of
           Inl e \<Rightarrow> Inl e
         | Inr added \<Rightarrow>
             (let removed = map (\<lambda>(col, cc).
                    \<lparr>change_type = COLUMN_REMOVED, column_name = col,
                     old_value = Some (dtype cc), new_value = None,
                     is_breaking = (compatibility_mode (contract v) \<in> set [BACKWARD, FULL]),
                     change_description =
                       ''Required column '' @ quoted col @ '' missing from incoming data''\<rparr>)
                  (filter (\<lambda>(col, cc). col \<notin> set incoming_columns) (column_map v))
              in case collect (\<lambda>(col, cc).
                      (case dtype_of df col of
                         Inl e \<Rightarrow> Inl e
                       | Inr d \<Rightarrow>
                           (let expected_dtype = dtype cc;
                                actual_dtype = normalize_dtype (dtype_name d)
                            in Inr (if \<not> types_compatible expected_dtype actual_dtype
                                    then [\<lparr>change_type = TYPE_CHANGED, column_name = col,
                                           old_value = Some expected_dtype,
                                           new_value = Some actual_dtype,
                                           is_breaking = True,
                                           change_description =
                                             ''Column '' @ quoted col @ '' type changed from ''
                                               @ expected_dtype @ '' to '' @ actual_dtype\<rparr>]
                                    else []))))
                    (filter (\<lambda>(col, cc). col \<in> set incoming_columns) (column_map v)) of
                   Inl e \<Rightarrow> Inl e
                 | Inr changed \<Rightarrow> Inr (added @ removed @ concat changed)))"

subsection \<open>Value checks\<close>

record check_result =
  check :: string
  check_passed :: bool
  check_failed_count :: nat

record col_results =
  column :: string
  checks :: "check_result list"
  failed_count :: nat

definition add_check :: "col_results \<Rightarrow> string \<Rightarrow> nat \<Rightarrow> col_results" where
  "add_check r name n =
     r\<lparr>checks := checks r @ [\<lparr>check = name, check_passed = (n = 0), check_failed_count = n\<rparr>],
       failed_count := failed_count r + n\<rparr>"

text \<open>
  A cell against a bound: a missing value compares false, a number compares as a number,
  and comparing a string with a number raises \<open>TypeError\<close>. The model compares numbers
  exactly; the code compares a 64-bit integer cell with a float bound after rounding the
  integer to a float, which differs for integers beyond \<open>2^53\<close> only.
\<close>

fun cell_less :: "cell \<Rightarrow> rat \<Rightarrow> error + bool" where
  "cell_less NA b = Inr False"
| "cell_less NoneCell b = Inr False"
| "cell_less (Num x) b = Inr (x < b)"
| "cell_less (Str s) b = Inl TypeError"

fun cell_greater :: "cell \<Rightarrow> rat \<Rightarrow> error + bool" where
  "cell_greater NA b = Inr False"
| "cell_greater NoneCell b = Inr False"
| "cell_greater (Num x) b = Inr (x > b)"
| "cell_greater (Str s) b = Inl TypeError"

fun count_true :: "(cell \<Rightarrow> error + bool) \<Rightarrow> cell list \<Rightarrow> error + nat" where
  "count_true p [] = Inr 0"
| "count_true p (c # cs) =
     (case p c of
        Inl e \<Rightarrow> Inl e
      | Inr b \<Rightarrow>
          (case count_true p cs of
             Inl e \<Rightarrow> Inl e
           | Inr n \<Rightarrow> Inr (if b then Suc n else n)))"

text \<open>
  \<open>(col_data < bound).sum()\<close> and \<open>(col_data > bound).sum()\<close>: the dtype of the column
  decides first whether the comparison is accepted; then the cells are compared.
\<close>

definition compare_count :: "pd_dtype \<Rightarrow> (cell \<Rightarrow> error + bool) \<Rightarrow> cell list \<Rightarrow> error + nat" where
  "compare_count d p col_data =
     (if \<not> orders_with_numbers d then Inl TypeError else count_true p col_data)"

text \<open>\<open>isna().sum()\<close>, \<open>duplicated().sum()\<close> and the count of non-null cells outside the allow-list.\<close>

definition isna :: "cell \<Rightarrow> bool" where
  "isna c \<longleftrightarrow> c = NA \<or> c = NoneCell"

definition null_count :: "cell list \<Rightarrow> nat" where
  "null_count col_data = length (filter isna col_data)"

definition dup_count :: "cell list \<Rightarrow> nat" where
  "dup_count col_data = length col_data - length (remdups col_data)"

definition invalid_count :: "cell list \<Rightarrow> cell list \<Rightarrow> nat" where
  "invalid_count allowed col_data = length (filter (\<lambda>c. c \<notin> set allowed \<and> \<not> isna c) col_data)"

text \<open>
  The checks of one declared column whose label the frame has once, in source order;
  \<open>d\<close> is the dtype of the column.
\<close>

definition validate_column :: "ColumnContract \<Rightarrow> pd_dtype \<Rightarrow> cell list \<Rightarrow> error + col_results" where
  "validate_column col_contract d col_data =
     (let r0 = \<lparr>column = cc_name col_contract, checks = [], failed_count = 0\<rparr>;
          r1 = (if \<not> nullable col_contract
                then add_check r0 ''not_null'' (null_count col_data) else r0);
          r2 = (if unique col_contract
                then add_check r1 ''unique'' (dup_count col_data) else r1);
          r3 = (if allowed_values col_contract \<noteq> []
                then add_check r2 ''allowed_values''
                       (invalid_count (allowed_values col_contract) col_data)
                else r2)
      in case (case min_value col_contract of
                 None \<Rightarrow> Inr r3
               | Some lo \<Rightarrow>
                   (case compare_count d (\<lambda>c. cell_less c lo) col_data of
                      Inl e \<Rightarrow> Inl e
                    | Inr below_min \<Rightarrow> Inr (add_check r3 ''min_value'' below_min))) of
           Inl e \<Rightarrow> Inl e
         | Inr r4 \<Rightarrow>
             (case max_value col_contract of
                None \<Rightarrow> Inr r4
              | Some hi \<Rightarrow>
                  (case compare_count d (\<lambda>c. cell_greater c hi) col_data of
                     Inl e \<Rightarrow> Inl e
                   | Inr above_max \<Rightarrow> Inr (add_check r4 ''max_value'' above_max))))"

text \<open>
  The same checks when the frame has the label more than once, so that \<open>df[col_name]\<close>
  is a frame. The counts of the null, allow-list and bound checks are then one number
  per column, and \<open>int(...)\<close> of them raises \<open>TypeError\<close>; \<open>duplicated().sum()\<close> is still one
  number, the count of repeated rows. (In the model the columns under one label hold
  the same cells, so that a repeated row is a repeated cell.)
\<close>

definition validate_repeated_label :: "ColumnContract \<Rightarrow> cell list \<Rightarrow> error + col_results" where
  "validate_repeated_label col_contract col_data =
     (let r0 = \<lparr>column = cc_name col_contract, checks = [], failed_count = 0\<rparr>
      in if \<not> nullable col_contract then Inl TypeError
         else
           (let r2 = (if unique col_contract
                      then add_check r0 ''unique'' (dup_count col_data) else r0)
            in if allowed_values col_contract \<noteq> [] then Inl TypeError
               else if min_value col_contract \<noteq> None then Inl TypeError
               else if max_value col_contract \<noteq> None then Inl TypeError
               else Inr r2))"

text \<open>The loop of \<open>validate_values\<close> over \<open>self.contract.columns\<close>, filling the \<open>results\<close> dict.\<close>

fun validate_values_loop ::
  "ColumnContract list \<Rightarrow> dataframe \<Rightarrow> (string \<times> col_results) list
     \<Rightarrow> error + (string \<times> col_results) list" where
  "validate_values_loop [] df acc = Inr acc"
| "validate_values_loop (col_contract # rest) df acc =
     (case filter (\<lambda>(l, d). l = cc_name col_contract) (df_columns df) of
        [] \<Rightarrow> validate_values_loop rest df acc
      | [(l, d)] \<Rightarrow>
          (case validate_column col_contract d (column_data df (cc_name col_contract)) of
             Inl e \<Rightarrow> Inl e
           | Inr col_res \<Rightarrow>
               validate_values_loop rest df (AList.update (cc_name col_contract) col_res acc))
      | _ \<Rightarrow>
          (case validate_repeated_label col_contract (column_data df (cc_name col_contract)) of
             Inl e \<Rightarrow> Inl e
           | Inr col_res \<Rightarrow>
               validate_values_loop rest df (AList.update (cc_name col_contract) col_res acc)))"

definition validate_values :: "ContractValidator \<Rightarrow> dataframe \<Rightarrow> error + (string \<times> col_results) list" where
  "validate_values v df = validate_values_loop (columns (contract v)) df []"

subsection \<open>The decision\<close>

text \<open>
  \<open>ContractValidationResult\<close> without \<open>schema_hash\<close> (an MD5 digest) and \<open>timestamp\<close>
  (the clock); no branch reads them.
\<close>

record ContractValidationResult =
  contract_name :: string
  contract_version :: string
  schema_changes :: "SchemaChange list"
  has_breaking_changes :: bool
  value_validation :: "(string \<times> col_results) list"
  total_records :: nat
  failed_records :: nat
  is_valid :: bool
  action :: string

text \<open>
  The block under \<open># Determine action\<close>. The quotient \<open>failed_records / len(df)\<close> is a
  float compared with the float \<open>0.05\<close>; the model compares the exact quotient with
  \<open>5/100\<close>, which gives the same answer for every frame of fewer than \<open>10^15\<close> rows. The
  division is the only one in the function and has no guard of its own; the model gives
  it the Python reading, \<open>ZeroDivisionError\<close> for a frame without rows (with a NumPy
  integer as dividend the quotient would be \<open>inf\<close> and the branch a quarantine).
\<close>

definition determine_action ::
  "bool \<Rightarrow> nat \<Rightarrow> nat \<Rightarrow> SchemaChange list \<Rightarrow> error + (string \<times> bool)" where
  "determine_action has_breaking n_failed n_rows changes =
     (if has_breaking then Inr (''quarantine'', False)
      else if n_failed > 0 then
        (if n_rows = 0 then Inl ZeroDivisionError
         else if (of_nat n_failed :: rat) / of_nat n_rows > 5 / 100 then Inr (''quarantine'', False)
         else Inr (''alert'', True))
      else if changes \<noteq> [] then Inr (''alert'', True)
      else Inr (''accept'', True))"

text \<open>
  \<open>validate_against_contract\<close>: the schema changes, then the value checks, then the
  decision; an exception of an earlier step leaves the function.
\<close>

definition validate_against_contract :: "dataframe \<Rightarrow> DataContract \<Rightarrow> error + ContractValidationResult" where
  "validate_against_contract df c =
     (let validator = ContractValidator_init c
      in case detect_schema_changes validator df of
           Inl e \<Rightarrow> Inl e
         | Inr changes \<Rightarrow>
             (let has_breaking = list_ex is_breaking changes
              in case validate_values validator df of
                   Inl e \<Rightarrow> Inl e
                 | Inr vv \<Rightarrow>
                     (let n_failed = sum_list (map (\<lambda>(k, v). failed_count v) vv)
                      in case determine_action has_breaking n_failed (len_df df) changes of
                           Inl e \<Rightarrow> Inl e
                         | Inr (act, valid) \<Rightarrow>
                             Inr \<lparr>contract_name = dc_name c, contract_version = version c,
                                  schema_changes = changes,
                                  has_breaking_changes = has_breaking,
                                  value_validation = vv, total_records = len_df df,
                                  failed_records = n_failed, is_valid = valid,
                                  action = act\<rparr>)))"


section \<open>Concrete inputs\<close>

subsection \<open>Dtypes\<close>

definition dtype_object :: pd_dtype where
  "dtype_object = \<lparr>dtype_name = ''object'', orders_with_numbers = True\<rparr>"

definition dtype_int64 :: pd_dtype where
  "dtype_int64 = \<lparr>dtype_name = ''int64'', orders_with_numbers = True\<rparr>"

definition dtype_datetime64 :: pd_dtype where
  "dtype_datetime64 = \<lparr>dtype_name = ''datetime64[ns]'', orders_with_numbers = False\<rparr>"

subsection \<open>Frames, rules and validators\<close>

definition one_subject_frame :: dataframe where
  "one_subject_frame =
     \<lparr>df_columns = [(''USUBJID'', dtype_object)], df_rows = [[(''USUBJID'', Str ''SUBJ001'')]]\<rparr>"

definition no_subject_frame :: dataframe where
  "no_subject_frame = \<lparr>df_columns = [(''USUBJID'', dtype_object)], df_rows = []\<rparr>"

text \<open>A predicate that fails every row, one that passes, and one that raises \<open>KeyError('AGE')\<close>.\<close>

definition failing_rule :: "dataframe \<Rightarrow> string + (bool \<times> dataframe)" where
  "failing_rule df = Inr (False, df)"

definition passing_rule :: "dataframe \<Rightarrow> string + (bool \<times> dataframe)" where
  "passing_rule df = Inr (True, df\<lparr>df_rows := []\<rparr>)"

definition raising_rule :: "dataframe \<Rightarrow> string + (bool \<times> dataframe)" where
  "raising_rule df = Inl (quoted ''AGE'')"

definition info_validator :: ClinicalDataValidator where
  "info_validator =
     add_rule (ClinicalDataValidator_init ''DM'') ''DM_900'' ''Subjects are listed for monitoring''
       failing_rule INFO"

definition mixed_validator :: ClinicalDataValidator where
  "mixed_validator =
     add_rule
       (add_rule (ClinicalDataValidator_init ''DM'') ''DM_002'' ''USUBJID cannot be null''
          passing_rule ERROR)
       ''DM_003'' ''AGE must be between 0 and 120 years'' raising_rule WARNING"

definition twice_named_validator :: ClinicalDataValidator where
  "twice_named_validator =
     add_rule
       (add_rule (ClinicalDataValidator_init ''DM'') ''DM_001'' ''USUBJID must be unique''
          passing_rule ERROR)
       ''DM_001'' ''ARM should be populated'' failing_rule WARNING"

subsection \<open>Lineage events\<close>

definition asset_A :: asset_dict where
  "asset_A = \<lparr>asset_id = ''a1'', location = Some ''A''\<rparr>"

definition asset_B :: asset_dict where
  "asset_B = \<lparr>asset_id = ''b1'', location = Some ''B''\<rparr>"

text \<open>\<open>E1: A \<rightarrow> B\<close> and \<open>E2: B \<rightarrow> A\<close>.\<close>

definition event_E1 :: lineage_record where
  "event_E1 = \<lparr>event_id = ''E1'', triggered_by = ''glue:bronze_to_silver'',
     input_assets = [asset_A], output_assets = [asset_B]\<rparr>"

definition event_E2 :: lineage_record where
  "event_E2 = \<lparr>event_id = ''E2'', triggered_by = ''glue:silver_to_gold'',
     input_assets = [asset_B], output_assets = [asset_A]\<rparr>"

definition cyclic_query :: LineageQuery where
  "cyclic_query = LineageQuery_init [event_E1, event_E2]"

text \<open>An event that registered two output files under the one location \<open>A\<close>.\<close>

definition event_two_parts :: lineage_record where
  "event_two_parts = \<lparr>event_id = ''E3'', triggered_by = ''lambda:ingestion'',
     input_assets = [],
     output_assets = [\<lparr>asset_id = ''part-0'', location = Some ''A''\<rparr>,
                      \<lparr>asset_id = ''part-1'', location = Some ''A''\<rparr>]\<rparr>"

subsection \<open>Contracts and frames for them\<close>

text \<open>The \<open>AGE\<close> and \<open>RACE\<close> columns of \<open>create_dm_contract\<close>.\<close>

definition age_column :: ColumnContract where
  "age_column = \<lparr>cc_name = ''AGE'', dtype = ''int64'', nullable = False, unique = False,
     allowed_values = [], min_value = Some 0, max_value = Some 120, pattern = None,
     cc_description = ''Age in Years''\<rparr>"

definition race_column :: ColumnContract where
  "race_column = \<lparr>cc_name = ''RACE'', dtype = ''string'', nullable = True, unique = False,
     allowed_values = [], min_value = None, max_value = None, pattern = None,
     cc_description = ''Race''\<rparr>"

definition age_contract :: DataContract where
  "age_contract = \<lparr>dc_name = ''clinical_trial_dm'', version = ''1.0.0'', dc_domain = ''DM'',
     dc_description = ''Demographics domain - one record per subject'',
     owner = ''data-engineering'', columns = [age_column], compatibility_mode = BACKWARD,
     primary_key = [], foreign_keys = [],
     created_at = ''2024-01-01T00:00:00'', updated_at = ''2024-01-01T00:00:00''\<rparr>"

definition age_race_contract :: DataContract where
  "age_race_contract = age_contract\<lparr>columns := [age_column, race_column]\<rparr>"

text \<open>One row whose \<open>AGE\<close> is text, one row whose \<open>AGE\<close> is a number, and no row at all.\<close>

definition text_age_frame :: dataframe where
  "text_age_frame =
     \<lparr>df_columns = [(''AGE'', dtype_object)], df_rows = [[(''AGE'', Str ''unknown'')]]\<rparr>"

definition numeric_age_frame :: dataframe where
  "numeric_age_frame = \<lparr>df_columns = [(''AGE'', dtype_int64)], df_rows = [[(''AGE'', Num 45)]]\<rparr>"

definition empty_age_frame :: dataframe where
  "empty_age_frame = \<lparr>df_columns = [(''AGE'', dtype_int64)], df_rows = []\<rparr>"

text \<open>
  A frame without rows whose \<open>AGE\<close> column holds timestamps, and one without rows that
  has the label \<open>AGE\<close> twice.
\<close>

definition empty_datetime_frame :: dataframe where
  "empty_datetime_frame = \<lparr>df_columns = [(''AGE'', dtype_datetime64)], df_rows = []\<rparr>"

definition repeated_label_frame :: dataframe where
  "repeated_label_frame =
     \<lparr>df_columns = [(''AGE'', dtype_int64), (''AGE'', dtype_int64)], df_rows = []\<rparr>"

text \<open>A stored contract whose primary key names a column that it does not declare.\<close>

definition age_column_json :: column_json where
  "age_column_json = \<lparr>cj_name = Some ''AGE'', cj_dtype = Some ''int64'',
     cj_nullable = Some False, cj_unique = Some False, cj_allowed_values = None,
     cj_min_value = Some 0, cj_max_value = Some 120, cj_pattern = None,
     cj_description = Some ''Age in Years'', cj_other_keys = []\<rparr>"

definition orphan_key_json :: contract_json where
  "orphan_key_json = \<lparr>j_name = Some ''clinical_trial_dm'', j_version = Some ''1.0.0'',
     j_domain = Some ''DM'',
     j_description = Some ''Demographics domain - one record per subject'',
     j_owner = Some ''data-engineering'', j_compatibility_mode = Some ''backward'',
     j_primary_key = Some [''USUBJID''], j_foreign_keys = Some [],
     j_columns = Some [age_column_json],
     j_created_at = Some ''2024-01-01T00:00:00'', j_updated_at = Some ''2024-01-01T00:00:00'',
     j_other_keys = []\<rparr>"

section \<open>Auxiliary facts\<close>

lemmas validator_example_defs =
  one_subject_frame_def no_subject_frame_def failing_rule_def passing_rule_def raising_rule_def
  info_validator_def mixed_validator_def twice_named_validator_def dtype_object_def

lemmas validation_engine_defs =
  validate_def overall_status_def add_rule_def ClinicalDataValidator_init_def run_rule_def
  len_df_def df_empty_def column_names_def column_data_def cell_at_def quoted_def Let_def

lemmas lineage_example_defs =
  asset_A_def asset_B_def event_E1_def event_E2_def cyclic_query_def event_two_parts_def

lemmas lineage_defs =
  LineageQuery_init_def build_index_record_def index_append_def index_get_def location_of_def
  traverse_step_def traverse_start_def Let_def

lemmas contract_example_defs =
  age_column_def race_column_def age_contract_def age_race_contract_def text_age_frame_def
  numeric_age_frame_def empty_age_frame_def empty_datetime_frame_def repeated_label_frame_def
  age_column_json_def orphan_key_json_def dtype_object_def dtype_int64_def dtype_datetime64_def

lemmas contract_engine_defs =
  validate_against_contract_def ContractValidator_init_def detect_schema_changes_def
  validate_values_def validate_column_def validate_repeated_label_def compare_count_def
  determine_action_def column_names_def column_data_def cell_at_def dtype_of_def
  normalize_dtype_def types_compatible_def null_count_def dup_count_def invalid_count_def
  isna_def add_check_def len_df_def quoted_def DataContract_load_def ColumnContract_of_json_def
  CompatibilityMode_of_value_def Let_def

subsection \<open>Validation engine\<close>

lemma validate_loop_map:
  "validate_loop rs df idc acc = acc @ map (\<lambda>rule. run_rule rule df idc) rs"
  by (induction rs arbitrary: acc) simp_all

lemma dq_results_validate:
  "dq_results (snd (validate v df idc)) = map (\<lambda>rule. run_rule rule df idc) (rules v)"
  by (simp add: validate_def Let_def validate_loop_map)

lemma dq_status_validate:
  "dq_status (snd (validate v df idc)) = overall_status (dq_results (snd (validate v df idc)))"
  by (simp add: validate_def Let_def)

lemma overall_status_FAILED:
  "overall_status rs = FAILED \<longleftrightarrow> (\<exists>r\<in>set rs. severity r = ERROR \<and> \<not> passed r)"
  by (auto simp: overall_status_def Let_def list_ex_iff)

lemma overall_status_PASSED:
  "overall_status rs = PASSED \<longleftrightarrow> (\<forall>r\<in>set rs. severity r \<noteq> INFO \<longrightarrow> passed r)"
proof -
  have sev: "\<And>r. severity r \<noteq> INFO \<longleftrightarrow> severity r = ERROR \<or> severity r = WARNING"
    subgoal for r by (cases "severity r") simp_all
    done
  show ?thesis
    unfolding overall_status_def Let_def list_ex_iff sev by auto
qed

lemma overall_status_WARNINGS:
  "overall_status rs = PASSED_WITH_WARNINGS \<longleftrightarrow>
     \<not> (\<exists>r\<in>set rs. severity r = ERROR \<and> \<not> passed r) \<and>
     (\<exists>r\<in>set rs. severity r = WARNING \<and> \<not> passed r)"
  by (auto simp: overall_status_def Let_def list_ex_iff)

lemma run_rule_raised:
  "r_func rule df = Inl e \<Longrightarrow>
     run_rule rule df idc =
       \<lparr>rule_name = r_name rule, description = r_description rule, severity = ERROR,
        passed = False, records_checked = len_df df, records_failed = len_df df,
        failure_percentage = 100, failed_record_ids = [], details = [(''error'', e)]\<rparr>"
  by (simp add: run_rule_def Let_def)


subsection \<open>Lineage\<close>

lemma index_get_Nil: "index_get [] l = []"
  by (simp add: index_get_def)

lemma index_get_append:
  "index_get (index_append idx k r) l = (if l = k then index_get idx k @ [r] else index_get idx l)"
  by (simp add: index_append_def index_get_def update_conv')

lemma count_list_snoc: "count_list (xs @ [r]) e = count_list xs e + (if r = e then 1 else 0)"
  by (induction xs) auto

lemma count_index_fold_assets:
  "count_list (index_get (foldl (\<lambda>idx a. index_append idx (location_of a) r) idx as) l) e =
     count_list (index_get idx l) e + (if r = e then count_list (map location_of as) l else 0)"
proof (induction as arbitrary: idx)
  case Nil
  then show ?case by simp
next
  case (Cons a as)
  show ?case
    by (simp add: Cons.IH index_get_append count_list_snoc)
qed

lemma fst_build_index_record:
  "fst (build_index_record idxs r) =
     foldl (\<lambda>idx a. index_append idx (location_of a) r) (fst idxs) (output_assets r)"
  by (simp add: build_index_record_def Let_def)

lemma snd_build_index_record:
  "snd (build_index_record idxs r) =
     foldl (\<lambda>idx a. index_append idx (location_of a) r) (snd idxs) (input_assets r)"
  by (simp add: build_index_record_def Let_def)

lemma count_index_fold_records_out:
  "count_list (index_get (fst (foldl build_index_record idxs recs)) l) e =
     count_list (index_get (fst idxs) l) e
       + count_list recs e * count_list (map location_of (output_assets e)) l"
proof (induction recs arbitrary: idxs)
  case Nil
  show ?case by simp
next
  case (Cons r recs)
  have "count_list (index_get (fst (foldl build_index_record idxs (r # recs))) l) e =
        count_list (index_get (fst (build_index_record idxs r)) l) e
          + count_list recs e * count_list (map location_of (output_assets e)) l"
    by (simp add: Cons.IH)
  then show ?case
    by (simp add: fst_build_index_record count_index_fold_assets)
qed

lemma count_index_fold_records_in:
  "count_list (index_get (snd (foldl build_index_record idxs recs)) l) e =
     count_list (index_get (snd idxs) l) e
       + count_list recs e * count_list (map location_of (input_assets e)) l"
proof (induction recs arbitrary: idxs)
  case Nil
  show ?case by simp
next
  case (Cons r recs)
  have "count_list (index_get (snd (foldl build_index_record idxs (r # recs))) l) e =
        count_list (index_get (snd (build_index_record idxs r)) l) e
          + count_list recs e * count_list (map location_of (input_assets e)) l"
    by (simp add: Cons.IH)
  then show ?case
    by (simp add: snd_build_index_record count_index_fold_assets)
qed

text \<open>What \<open>_build_index\<close> stores under a location, counted per event.\<close>

lemma count_by_output:
  "count_list (index_get (by_output (LineageQuery_init recs)) l) e =
     count_list recs e * count_list (map location_of (output_assets e)) l"
  by (simp add: LineageQuery_init_def Let_def count_index_fold_records_out index_get_Nil)

lemma count_by_input:
  "count_list (index_get (by_input (LineageQuery_init recs)) l) e =
     count_list recs e * count_list (map location_of (input_assets e)) l"
  by (simp add: LineageQuery_init_def Let_def count_index_fold_records_in index_get_Nil)

lemma sum_count_list_filter:
  "finite V \<Longrightarrow> (\<Sum>l\<in>V. count_list xs l) = length (filter (\<lambda>x. x \<in> V) xs)"
proof (induction xs)
  case Nil
  then show ?case by simp
next
  case (Cons x xs)
  have "(\<Sum>l\<in>V. count_list (x # xs) l) = (\<Sum>l\<in>V. count_list xs l + (if l = x then 1 else 0))"
    by (intro sum.cong) auto
  also have "\<dots> = (\<Sum>l\<in>V. count_list xs l) + (\<Sum>l\<in>V. if l = x then 1 else 0)"
    by (simp add: sum.distrib)
  also have "(\<Sum>l\<in>V. if l = x then 1 else 0) = (if x \<in> V then 1 else (0::nat))"
    using Cons.prems by (simp add: sum.delta)
  finally show ?case using Cons by simp
qed

lemma sum_count_locations:
  "finite V \<Longrightarrow>
     (\<Sum>l\<in>V. count_list (map location_of as) l) = length (filter (\<lambda>a. location_of a \<in> V) as)"
  using sum_count_list_filter[of V "map location_of as"]
  by (simp add: filter_map o_def)

lemma traverse_step_skip:
  "queue s = (cl, cd) # rest \<Longrightarrow> cl \<in> visited s \<or> cd > depth \<Longrightarrow>
     traverse_step idx nxt depth s = s\<lparr>queue := rest\<rparr>"
  by (simp add: traverse_step_def)

lemma traverse_step_expand:
  "queue s = (cl, cd) # rest \<Longrightarrow> \<not> (cl \<in> visited s \<or> cd > depth) \<Longrightarrow>
     visited (traverse_step idx nxt depth s) = insert cl (visited s) \<and>
     result (traverse_step idx nxt depth s) = result s @ index_get idx cl"
  by (simp add: traverse_step_def Let_def)

text \<open>
  The loop leaves in \<open>result\<close>, beyond what was there, the index entries of the locations
  it added to \<open>visited\<close>, each entry once.
\<close>

lemma traverse_loop_count:
  "finite (visited s) \<Longrightarrow>
     finite (visited (traverse_loop idx nxt depth s)) \<and>
     visited s \<subseteq> visited (traverse_loop idx nxt depth s) \<and>
     count_list (result (traverse_loop idx nxt depth s)) e =
       count_list (result s) e
         + (\<Sum>l\<in>visited (traverse_loop idx nxt depth s) - visited s. count_list (index_get idx l) e)"
proof (induction idx nxt depth s rule: traverse_loop.induct)
  case (1 idx nxt depth s)
  let ?t = "traverse_loop idx nxt depth s"
  let ?s' = "traverse_step idx nxt depth s"
  show ?case
  proof (cases "queue s = []")
    case True
    then have "?t = s" by (simp add: traverse_loop.simps)
    then show ?thesis using "1.prems" by simp
  next
    case False
    then have t: "?t = traverse_loop idx nxt depth ?s'"
      by (simp add: traverse_loop.simps[of idx nxt depth s])
    from False obtain cl cd rest where q: "queue s = (cl, cd) # rest"
      by (cases "queue s") auto
    show ?thesis
    proof (cases "cl \<in> visited s \<or> cd > depth")
      case True
      then have s': "?s' = s\<lparr>queue := rest\<rparr>" using q by (rule traverse_step_skip[rotated])
      have "finite (visited ?s')" using "1.prems" s' by simp
      from "1.IH"[OF False this] show ?thesis unfolding t[symmetric] using s' by simp
    next
      case notskip: False
      from traverse_step_expand[OF q notskip]
      have v': "visited ?s' = insert cl (visited s)" and r': "result ?s' = result s @ index_get idx cl"
        by auto
      have fin': "finite (visited ?s')" using "1.prems" v' by simp
      from "1.IH"[OF False fin'] have
        fin: "finite (visited ?t)" and sub: "visited ?s' \<subseteq> visited ?t" and
        cnt: "count_list (result ?t) e = count_list (result ?s') e
                + (\<Sum>l\<in>visited ?t - visited ?s'. count_list (index_get idx l) e)"
        unfolding t[symmetric] by auto
      have fresh: "cl \<notin> visited s" using notskip by simp
      have split: "visited ?t - visited s = insert cl (visited ?t - visited ?s')"
        using sub v' fresh by auto
      have "(\<Sum>l\<in>visited ?t - visited s. count_list (index_get idx l) e) =
            count_list (index_get idx cl) e + (\<Sum>l\<in>visited ?t - visited ?s'. count_list (index_get idx l) e)"
        unfolding split using fin v' by (subst sum.insert) auto
      then show ?thesis using fin sub cnt v' r' by auto
    qed
  qed
qed

lemma traverse_count_from_start:
  "finite (visited (traverse_loop idx nxt depth (traverse_start loc))) \<and>
   count_list (result (traverse_loop idx nxt depth (traverse_start loc))) e =
     (\<Sum>l\<in>visited (traverse_loop idx nxt depth (traverse_start loc)). count_list (index_get idx l) e)"
  using traverse_loop_count[of "traverse_start loc" idx nxt depth e]
  by (simp add: traverse_start_def)

text \<open>The loop is the iteration of its body until the queue is empty, and the queue does empty.\<close>

lemma traverse_loop_iterates:
  "\<exists>n. queue ((traverse_step idx nxt depth ^^ n) s) = [] \<and>
       (traverse_step idx nxt depth ^^ n) s = traverse_loop idx nxt depth s"
proof (induction idx nxt depth s rule: traverse_loop.induct)
  case (1 idx nxt depth s)
  show ?case
  proof (cases "queue s = []")
    case True
    then have "queue ((traverse_step idx nxt depth ^^ 0) s) = [] \<and>
       (traverse_step idx nxt depth ^^ 0) s = traverse_loop idx nxt depth s"
      by (simp add: traverse_loop.simps)
    then show ?thesis by blast
  next
    case False
    from 1[OF False] obtain n where
      n: "queue ((traverse_step idx nxt depth ^^ n) (traverse_step idx nxt depth s)) = []"
         "(traverse_step idx nxt depth ^^ n) (traverse_step idx nxt depth s)
            = traverse_loop idx nxt depth (traverse_step idx nxt depth s)"
      by blast
    have "queue ((traverse_step idx nxt depth ^^ Suc n) s) = [] \<and>
       (traverse_step idx nxt depth ^^ Suc n) s = traverse_loop idx nxt depth s"
      using n False by (simp add: funpow_swap1 traverse_loop.simps[of idx nxt depth s])
    then show ?thesis by blast
  qed
qed

lemma by_output_cyclic: "by_output cyclic_query = [(''B'', [event_E1]), (''A'', [event_E2])]"
  by (simp add: lineage_defs lineage_example_defs)

lemma by_output_two_parts:
  "by_output (LineageQuery_init [event_two_parts]) = [(''A'', [event_two_parts, event_two_parts])]"
  by (simp add: lineage_defs lineage_example_defs)

subsection \<open>Contract engine\<close>

lemma column_map_keys:
  "fst ` set (foldl (\<lambda>m col. AList.update (cc_name col) col m) acc cols) =
     fst ` set acc \<union> cc_name ` set cols"
  by (induction cols arbitrary: acc) (auto simp: dom_update)

lemma column_map_keys_init:
  "fst ` set (column_map (ContractValidator_init c)) = cc_name ` set (columns c)"
  by (simp add: ContractValidator_init_def column_map_keys)


lemma collect_Inr: "\<forall>x\<in>set xs. \<exists>y. f x = Inr y \<Longrightarrow> \<exists>ys. collect f xs = Inr ys"
proof (induction xs)
  case Nil
  then show ?case by simp
next
  case (Cons x xs)
  then obtain y ys where "f x = Inr y" "collect f xs = Inr ys"
    by auto
  then show ?case by simp
qed


text \<open>Labels, and what \<open>df[col].dtype\<close> gives for them.\<close>

lemma filter_label_absent:
  "l \<notin> fst ` set xs \<Longrightarrow> filter (\<lambda>(l', d). l' = l) xs = []"
  by (induction xs) auto

lemma filter_label_distinct:
  "distinct (map fst xs) \<Longrightarrow> (l, d) \<in> set xs \<Longrightarrow> filter (\<lambda>(l', d'). l' = l) xs = [(l, d)]"
proof (induction xs)
  case Nil
  then show ?case by simp
next
  case (Cons x xs)
  show ?case
  proof (cases "x = (l, d)")
    case True
    then have "l \<notin> fst ` set xs" using Cons.prems(1) by auto
    then show ?thesis using True by (simp add: filter_label_absent)
  next
    case False
    then have in_xs: "(l, d) \<in> set xs" using Cons.prems(2) by simp
    have "l \<in> fst ` set xs" using in_xs by (rule image_eqI[rotated]) simp
    moreover have "fst x \<notin> fst ` set xs" using Cons.prems(1) by simp
    ultimately have "fst x \<noteq> l" by blast
    then show ?thesis using in_xs Cons by (auto split: prod.splits)
  qed
qed



lemma dtype_of_once:
  "distinct (column_names df) \<Longrightarrow> col \<in> set (column_names df) \<Longrightarrow> \<exists>d. dtype_of df col = Inr d"
proof -
  assume d: "distinct (column_names df)" and c: "col \<in> set (column_names df)"
  from c obtain dt where "(col, dt) \<in> set (df_columns df)"
    by (auto simp: column_names_def)
  from filter_label_distinct[OF d[unfolded column_names_def] this]
  show ?thesis by (simp add: dtype_of_def)
qed




lemma detect_returns:
  assumes "distinct (column_names df)"
  shows "\<exists>changes. detect_schema_changes v df = Inr changes"
proof -
  have f: "\<And>col. col \<in> set (column_names df) \<Longrightarrow> \<exists>d. dtype_of df col = Inr d"
    using dtype_of_once[OF assms] by blast
  have "\<exists>added. collect (\<lambda>col. (case dtype_of df col of
                 Inl e \<Rightarrow> Inl e
               | Inr d \<Rightarrow>
                   Inr \<lparr>change_type = COLUMN_ADDED, column_name = col,
                        old_value = None, new_value = Some (dtype_name d),
                        is_breaking = (compatibility_mode (contract v) = FORWARD),
                        change_description =
                          ''New column '' @ quoted col @ '' detected in incoming data''\<rparr>))
            (filter (\<lambda>col. col \<notin> set (map fst (column_map v))) (remdups (column_names df)))
          = Inr added"
    by (rule collect_Inr) (use f in \<open>fastforce split: sum.splits\<close>)
  moreover have "\<exists>changed. collect (\<lambda>(col, cc). (case dtype_of df col of
                         Inl e \<Rightarrow> Inl e
                       | Inr d \<Rightarrow>
                           (let expected_dtype = dtype cc;
                                actual_dtype = normalize_dtype (dtype_name d)
                            in Inr (if \<not> types_compatible expected_dtype actual_dtype
                                    then [\<lparr>change_type = TYPE_CHANGED, column_name = col,
                                           old_value = Some expected_dtype,
                                           new_value = Some actual_dtype,
                                           is_breaking = True,
                                           change_description =
                                             ''Column '' @ quoted col @ '' type changed from ''
                                               @ expected_dtype @ '' to '' @ actual_dtype\<rparr>]
                                    else []))))
            (filter (\<lambda>(col, cc). col \<in> set (remdups (column_names df))) (column_map v))
          = Inr changed"
    by (rule collect_Inr) (use f in \<open>fastforce simp: Let_def split: sum.splits\<close>)
  ultimately show ?thesis
    by (auto simp: detect_schema_changes_def Let_def)
qed


text \<open>Every declared column that the frame lacks is reported as removed.\<close>

lemma detect_reports_missing_column:
  assumes det: "detect_schema_changes (ContractValidator_init c) df = Inr changes"
    and col: "cc \<in> set (columns c)"
    and missing: "cc_name cc \<notin> set (column_names df)"
  shows "\<exists>ch\<in>set changes.
           change_type ch = COLUMN_REMOVED \<and> column_name ch = cc_name cc \<and>
           is_breaking ch = (compatibility_mode c = BACKWARD \<or> compatibility_mode c = FULL)"
proof -
  let ?v = "ContractValidator_init c"
  have "cc_name cc \<in> fst ` set (column_map ?v)"
    using col by (simp add: column_map_keys_init)
  then obtain cc' where entry: "(cc_name cc, cc') \<in> set (column_map ?v)"
    by auto
  let ?ch = "\<lparr>change_type = COLUMN_REMOVED, column_name = cc_name cc,
               old_value = Some (dtype cc'), new_value = None,
               is_breaking = (compatibility_mode (contract ?v) \<in> set [BACKWARD, FULL]),
               change_description =
                 ''Required column '' @ quoted (cc_name cc) @ '' missing from incoming data''\<rparr>"
  have "?ch \<in> set changes"
    using det entry missing
    by (force simp: detect_schema_changes_def Let_def split: sum.splits)
  moreover have "is_breaking ?ch = (compatibility_mode c = BACKWARD \<or> compatibility_mode c = FULL)"
    by (auto simp: ContractValidator_init_def)
  ultimately show ?thesis
    by (intro bexI[of _ ?ch]) simp_all
qed

text \<open>The only exception that leaves \<open>validate_values\<close> is the \<open>TypeError\<close> of a check.\<close>

lemma count_true_less_error:
  "count_true (\<lambda>c. cell_less c b) xs = Inl e \<Longrightarrow> e = TypeError"
proof (induction xs arbitrary: e)
  case Nil
  then show ?case by simp
next
  case (Cons x xs)
  then show ?case by (cases x) (auto split: sum.splits)
qed

lemma count_true_greater_error:
  "count_true (\<lambda>c. cell_greater c b) xs = Inl e \<Longrightarrow> e = TypeError"
proof (induction xs arbitrary: e)
  case Nil
  then show ?case by simp
next
  case (Cons x xs)
  then show ?case by (cases x) (auto split: sum.splits)
qed

lemma validate_column_error: "validate_column cc d xs = Inl e \<Longrightarrow> e = TypeError"
  by (auto simp: validate_column_def compare_count_def Let_def
      split: option.splits sum.splits if_splits
      dest: count_true_less_error count_true_greater_error)

lemma validate_repeated_label_error: "validate_repeated_label cc xs = Inl e \<Longrightarrow> e = TypeError"
  by (auto simp: validate_repeated_label_def Let_def split: if_splits)

lemma validate_values_loop_error: "validate_values_loop cols df acc = Inl e \<Longrightarrow> e = TypeError"
  by (induction cols df acc rule: validate_values_loop.induct)
     (auto split: list.splits prod.splits sum.splits
        dest: validate_column_error validate_repeated_label_error)

lemma validate_values_error: "validate_values v df = Inl e \<Longrightarrow> e = TypeError"
  by (auto simp: validate_values_def dest: validate_values_loop_error)











text \<open>
  The decision block on a frame with rows: the nested tests of the source give the
  five-step order breaking, ratio, failures, changes, accept.
\<close>

lemma determine_action_policy:
  assumes "n_rows \<noteq> 0"
  shows "determine_action has_breaking n_failed n_rows changes =
           Inr (if has_breaking then (''quarantine'', False)
                else if (of_nat n_failed :: rat) / of_nat n_rows > 5 / 100 then (''quarantine'', False)
                else if n_failed > 0 then (''alert'', True)
                else if changes \<noteq> [] then (''alert'', True)
                else (''accept'', True))"
proof (cases "n_failed = 0")
  case True
  then show ?thesis by (simp add: determine_action_def)
next
  case False
  then show ?thesis using assms by (simp add: determine_action_def)
qed

lemma determine_action_threshold:
  "determine_action False 6 100 changes = Inr (''quarantine'', False)"
  "determine_action False 5 100 changes = Inr (''alert'', True)"
  by (simp_all add: determine_action_def)

text \<open>
  Whenever the schema changes are computed and the value checks complete on a frame with
  rows, \<open>validate_against_contract\<close> returns a result that follows the five-step order.
\<close>

lemma decision_policy_when_values_validate:
  assumes det: "detect_schema_changes (ContractValidator_init c) df = Inr changes"
    and vv: "validate_values (ContractValidator_init c) df = Inr vv"
    and rows: "df_rows df \<noteq> []"
  shows "\<exists>r. validate_against_contract df c = Inr r \<and>
           schema_changes r = changes \<and>
           has_breaking_changes r = list_ex is_breaking (schema_changes r) \<and>
           total_records r = len_df df \<and>
           failed_records r = sum_list (map (\<lambda>(k, v). failed_count v) vv) \<and>
           (action r, is_valid r) =
             (if has_breaking_changes r then (''quarantine'', False)
              else if (of_nat (failed_records r) :: rat) / of_nat (total_records r) > 5 / 100
                then (''quarantine'', False)
              else if failed_records r > 0 then (''alert'', True)
              else if schema_changes r \<noteq> [] then (''alert'', True)
              else (''accept'', True))"
proof -
  define n_failed where "n_failed = sum_list (map (\<lambda>(k, v). failed_count v) vv)"
  have n: "len_df df \<noteq> 0" using rows by (simp add: len_df_def)
  note pol = determine_action_policy[OF n, of "list_ex is_breaking changes" n_failed changes]
  have "validate_against_contract df c =
          (case determine_action (list_ex is_breaking changes) n_failed (len_df df) changes of
             Inl e \<Rightarrow> Inl e
           | Inr (act, valid) \<Rightarrow>
               Inr \<lparr>contract_name = dc_name c, contract_version = version c,
                    schema_changes = changes, has_breaking_changes = list_ex is_breaking changes,
                    value_validation = vv, total_records = len_df df,
                    failed_records = n_failed, is_valid = valid, action = act\<rparr>)"
    unfolding n_failed_def
    by (simp add: validate_against_contract_def Let_def vv det)
  then show ?thesis
    unfolding pol n_failed_def[symmetric]
    by (auto split: if_splits)
qed

text \<open>
  A missing declared column under \<open>BACKWARD\<close> or \<open>FULL\<close>, on a frame whose labels are
  distinct and whose value checks complete: the result is a quarantine.
\<close>

lemma missing_column_quarantined_when_checks_complete:
  assumes mode: "compatibility_mode c = BACKWARD \<or> compatibility_mode c = FULL"
    and col: "cc \<in> set (columns c)"
    and missing: "cc_name cc \<notin> set (column_names df)"
    and labels: "distinct (column_names df)"
    and vv: "validate_values (ContractValidator_init c) df = Inr vv"
  shows "\<exists>r. validate_against_contract df c = Inr r \<and> has_breaking_changes r \<and>
           action r = ''quarantine'' \<and> \<not> is_valid r \<and>
           (\<exists>ch\<in>set (schema_changes r).
              change_type ch = COLUMN_REMOVED \<and> column_name ch = cc_name cc \<and> is_breaking ch)"
proof -
  obtain changes where det: "detect_schema_changes (ContractValidator_init c) df = Inr changes"
    using detect_returns[OF labels] by blast
  from detect_reports_missing_column[OF det col missing] mode
  have ex: "\<exists>ch\<in>set changes.
              change_type ch = COLUMN_REMOVED \<and> column_name ch = cc_name cc \<and> is_breaking ch"
    by auto
  then have hb: "list_ex is_breaking changes"
    by (auto simp: list_ex_iff)
  show ?thesis
    using ex hb by (simp add: validate_against_contract_def Let_def det vv determine_action_def)
qed

section \<open>The decision of the contract engine\<close>

text \<open>
  C1. For every contract and every frame with rows, \<open>validate_against_contract\<close> is to
  return quarantine when a breaking schema change is detected, before any other test.
  The frame below has one row whose \<open>AGE\<close> is text, checked against the \<open>AGE\<close> column of the
  demographics contract (\<open>int64\<close>, bounds 0 and 120): the type change is detected and is
  breaking, but the bound check \<open>col_data < min_value\<close> of \<open>validate_values\<close>, which runs
  before the decision block, raises \<open>TypeError\<close>; the function returns no result.
\<close>

theorem type_changed_bounded_column_raises:
  "len_df text_age_frame = 1 \<and>
   map_sum id (list_ex is_breaking)
     (detect_schema_changes (ContractValidator_init age_contract) text_age_frame) = Inr True \<and>
   validate_against_contract text_age_frame age_contract = Inl TypeError"
  by (simp add: contract_engine_defs contract_example_defs)



text \<open>
  C9. Under \<open>BACKWARD\<close> or \<open>FULL\<close> a declared column that the frame lacks is reported as a
  breaking \<open>COLUMN_REMOVED\<close> change whether or not it is nullable, and is to force a
  quarantine. The frame below lacks the nullable column \<open>RACE\<close> of the contract: the
  change is detected and is breaking, but the frame's \<open>AGE\<close> is text, the bound check
  of \<open>validate_values\<close> raises \<open>TypeError\<close> before the decision block, and the function
  returns no result, so no quarantine.
\<close>

theorem missing_optional_column_not_quarantined:
  "nullable race_column \<and> race_column \<in> set (columns age_race_contract) \<and>
   cc_name race_column \<notin> set (column_names text_age_frame) \<and>
   compatibility_mode age_race_contract = BACKWARD \<and>
   map_sum id (map (\<lambda>ch. (change_type ch, column_name ch, is_breaking ch)))
     (detect_schema_changes (ContractValidator_init age_race_contract) text_age_frame)
     = Inr [(COLUMN_REMOVED, ''RACE'', True), (TYPE_CHANGED, ''AGE'', True)] \<and>
   validate_against_contract text_age_frame age_race_contract = Inl TypeError"
  by (simp add: contract_engine_defs contract_example_defs)

section \<open>Loading a contract\<close>

text \<open>
  C8, as stated, fails: the stored contract below names \<open>USUBJID\<close> as its primary key and
  declares only \<open>AGE\<close>; it loads, and a frame is then validated against it and accepted.
\<close>

theorem orphan_primary_key_loads:
  "map_sum id (\<lambda>c. (primary_key c, map cc_name (columns c)))
     (DataContract_load ''2024-06-01T12:00:00'' orphan_key_json)
     = Inr ([''USUBJID''], [''AGE'']) \<and>
   (case DataContract_load ''2024-06-01T12:00:00'' orphan_key_json of
      Inl e \<Rightarrow> Inl e
    | Inr c \<Rightarrow> map_sum id action (validate_against_contract numeric_age_frame c))
     = Inr ''accept''"
  by (simp add: contract_engine_defs contract_example_defs)

text \<open>
  C8, amended. Neither loading nor evaluation compares the primary key with the columns:
  whether \<open>load\<close> succeeds does not depend on the stored primary key, the loaded contract
  carries it as it is stored (the empty list when the key is absent), and
  \<open>validate_against_contract\<close> gives the same outcome whatever the primary key of the
  contract is.
\<close>

theorem load_ignores_primary_key:
  "DataContract_load now (data\<lparr>j_primary_key := pk\<rparr>)
     = map_sum id (\<lambda>c. c\<lparr>primary_key := (case pk of None \<Rightarrow> [] | Some ks \<Rightarrow> ks)\<rparr>)
         (DataContract_load now data) \<and>
   validate_against_contract df (c\<lparr>primary_key := ks\<rparr>) = validate_against_contract df c"
proof -
  have "DataContract_load now (data\<lparr>j_primary_key := pk\<rparr>)
     = map_sum id (\<lambda>c. c\<lparr>primary_key := (case pk of None \<Rightarrow> [] | Some ks \<Rightarrow> ks)\<rparr>)
         (DataContract_load now data)"
    by (simp add: DataContract_load_def split: option.splits sum.splits)
  moreover have "validate_against_contract df (c\<lparr>primary_key := ks\<rparr>) = validate_against_contract df c"
  proof -
    have d: "detect_schema_changes (ContractValidator_init (c\<lparr>primary_key := ks\<rparr>)) df
        = detect_schema_changes (ContractValidator_init c) df"
      by (simp add: ContractValidator_init_def detect_schema_changes_def Let_def
          cong: sum.case_cong)
    have v: "validate_values (ContractValidator_init (c\<lparr>primary_key := ks\<rparr>)) df
        = validate_values (ContractValidator_init c) df"
      by (simp add: ContractValidator_init_def validate_values_def)
    show ?thesis
      by (simp add: validate_against_contract_def Let_def d v
          cong: sum.case_cong prod.case_cong)
  qed
  ultimately show ?thesis by simp
qed

section \<open>The validation engine\<close>

text \<open>
  C3, as stated, fails: a rule of severity \<open>INFO\<close> that does not pass leaves the status
  \<open>PASSED\<close>, although not every result has passed.
\<close>

theorem info_failure_keeps_passed:
  "dq_status (snd (validate info_validator one_subject_frame ''USUBJID'')) = PASSED \<and>
   map passed (dq_results (snd (validate info_validator one_subject_frame ''USUBJID''))) = [False]"
  by (simp add: validation_engine_defs validator_example_defs)

text \<open>
  C3, amended. The status is \<open>FAILED\<close> exactly when some result of severity \<open>ERROR\<close> has not
  passed; it is \<open>PASSED\<close> exactly when every result of severity \<open>ERROR\<close> or \<open>WARNING\<close> has
  passed (results of severity \<open>INFO\<close> do not count); it is \<open>PASSED_WITH_WARNINGS\<close> exactly
  when no \<open>ERROR\<close> result and some \<open>WARNING\<close> result has not passed.
\<close>

theorem status_from_results:
  "(dq_status (snd (validate v df idc)) = FAILED \<longleftrightarrow>
      (\<exists>r\<in>set (dq_results (snd (validate v df idc))). severity r = ERROR \<and> \<not> passed r)) \<and>
   (dq_status (snd (validate v df idc)) = PASSED \<longleftrightarrow>
      (\<forall>r\<in>set (dq_results (snd (validate v df idc))). severity r \<noteq> INFO \<longrightarrow> passed r)) \<and>
   (dq_status (snd (validate v df idc)) = PASSED_WITH_WARNINGS \<longleftrightarrow>
      \<not> (\<exists>r\<in>set (dq_results (snd (validate v df idc))). severity r = ERROR \<and> \<not> passed r) \<and>
      (\<exists>r\<in>set (dq_results (snd (validate v df idc))). severity r = WARNING \<and> \<not> passed r))"
  unfolding dq_status_validate
  by (simp only: overall_status_FAILED overall_status_PASSED overall_status_WARNINGS simp_thms)

theorem status_from_results_witness:
  "dq_status (snd (validate mixed_validator one_subject_frame ''USUBJID'')) = FAILED \<and>
   dq_status (snd (validate info_validator one_subject_frame ''USUBJID'')) = PASSED"
proof -
  have "\<exists>r\<in>set (dq_results (snd (validate mixed_validator one_subject_frame ''USUBJID''))).
          severity r = ERROR \<and> \<not> passed r"
    by (simp add: validation_engine_defs validator_example_defs)
  moreover have "\<forall>r\<in>set (dq_results (snd (validate info_validator one_subject_frame ''USUBJID''))).
          severity r \<noteq> INFO \<longrightarrow> passed r"
    by (simp add: validation_engine_defs validator_example_defs)
  ultimately show ?thesis
    using status_from_results[of mixed_validator one_subject_frame "''USUBJID''"]
      status_from_results[of info_validator one_subject_frame "''USUBJID''"]
    by blast
qed




text \<open>
  C5. \<open>validate\<close> returns a report with one result per registered rule, in registration
  order, whatever the predicates do; the result of a rule whose predicate raises is not
  passed, has severity \<open>ERROR\<close>, \<open>records_failed = total_records\<close>,
  \<open>failure_percentage = 100\<close> and the message of the exception under \<open>"error"\<close> in its
  details. (\<open>validate\<close> has no error value: the handler catches every \<open>Exception\<close>.)
\<close>

theorem one_result_per_rule:
  "length (dq_results (snd (validate v df idc))) = length (rules v) \<and>
   map rule_name (dq_results (snd (validate v df idc))) = map r_name (rules v) \<and>
   dq_total_records (snd (validate v df idc)) = len_df df \<and>
   results (fst (validate v df idc)) = dq_results (snd (validate v df idc)) \<and>
   (\<forall>i<length (rules v). \<forall>e. r_func (rules v ! i) df = Inl e \<longrightarrow>
      dq_results (snd (validate v df idc)) ! i =
        \<lparr>rule_name = r_name (rules v ! i), description = r_description (rules v ! i),
         severity = ERROR, passed = False,
         records_checked = dq_total_records (snd (validate v df idc)),
         records_failed = dq_total_records (snd (validate v df idc)),
         failure_percentage = 100, failed_record_ids = [], details = [(''error'', e)]\<rparr>)"
proof -
  have names: "map rule_name (map (\<lambda>rule. run_rule rule df idc) (rules v)) = map r_name (rules v)"
    by (simp add: run_rule_def Let_def comp_def split: sum.splits prod.splits)
  have total: "dq_total_records (snd (validate v df idc)) = len_df df"
    by (simp add: validate_def Let_def)
  have same: "results (fst (validate v df idc)) = dq_results (snd (validate v df idc))"
    by (simp add: validate_def Let_def)
  show ?thesis
    using names total same by (simp add: dq_results_validate run_rule_raised)
qed

theorem one_result_per_rule_witness:
  "r_func (rules mixed_validator ! 1) one_subject_frame = Inl (quoted ''AGE'') \<and>
   dq_results (snd (validate mixed_validator one_subject_frame ''USUBJID'')) ! 1 =
     \<lparr>rule_name = ''DM_003'', description = ''AGE must be between 0 and 120 years'',
      severity = ERROR, passed = False, records_checked = 1, records_failed = 1,
      failure_percentage = 100, failed_record_ids = [],
      details = [(''error'', quoted ''AGE'')]\<rparr>"
proof -
  have len: "1 < length (rules mixed_validator)"
    by (simp add: validation_engine_defs validator_example_defs)
  have raised: "r_func (rules mixed_validator ! 1) one_subject_frame = Inl (quoted ''AGE'')"
    by (simp add: add_rule_def ClinicalDataValidator_init_def validator_example_defs)
  have rule: "r_name (rules mixed_validator ! 1) = ''DM_003''"
    "r_description (rules mixed_validator ! 1) = ''AGE must be between 0 and 120 years''"
    by (simp_all add: add_rule_def ClinicalDataValidator_init_def validator_example_defs)
  have total: "dq_total_records (snd (validate mixed_validator one_subject_frame ''USUBJID'')) = 1"
    by (simp add: validate_def Let_def len_df_def one_subject_frame_def)
  from one_result_per_rule[of mixed_validator one_subject_frame "''USUBJID''"] len raised
  have "dq_results (snd (validate mixed_validator one_subject_frame ''USUBJID'')) ! 1 =
        \<lparr>rule_name = r_name (rules mixed_validator ! 1),
         description = r_description (rules mixed_validator ! 1),
         severity = ERROR, passed = False,
         records_checked = dq_total_records (snd (validate mixed_validator one_subject_frame ''USUBJID'')),
         records_failed = dq_total_records (snd (validate mixed_validator one_subject_frame ''USUBJID'')),
         failure_percentage = 100, failed_record_ids = [],
         details = [(''error'', quoted ''AGE'')]\<rparr>"
    by blast
  then show ?thesis
    using raised rule total by simp
qed

text \<open>
  C6, as stated, fails: registering a second rule under the name \<open>DM_001\<close> does not
  fail, and both rules are registered.
\<close>

theorem same_name_registered_twice:
  "map r_name (rules twice_named_validator) = [''DM_001'', ''DM_001''] \<and>
   map rule_name (dq_results (snd (validate twice_named_validator one_subject_frame ''USUBJID'')))
     = [''DM_001'', ''DM_001'']"
  by (simp add: validation_engine_defs validator_example_defs)

text \<open>
  C6, amended. \<open>add_rule\<close> always registers the rule, by appending it to the list of
  rules, and has no failure; names are not compared, so each call adds one more rule
  under its name.
\<close>

theorem add_rule_appends:
  "rules (add_rule v name descr validation_func sev) =
     rules v @ [\<lparr>r_name = name, r_description = descr, r_func = validation_func, r_severity = sev\<rparr>] \<and>
   count_list (map r_name (rules (add_rule v name descr validation_func sev))) name =
     Suc (count_list (map r_name (rules v)) name) \<and>
   domain (add_rule v name descr validation_func sev) = domain v \<and>
   results (add_rule v name descr validation_func sev) = results v"
  by (simp add: add_rule_def count_list_snoc)

section \<open>Lineage traversal\<close>

text \<open>
  C7. On the index built from \<open>E1: A \<rightarrow> B\<close> and \<open>E2: B \<rightarrow> A\<close>, \<open>get_upstream("A", 5)\<close> is the
  list of \<open>E2\<close> and \<open>E1\<close>, each once. For every index, start location and depth, the
  \<open>while\<close> loop of \<open>get_upstream\<close> and of \<open>get_downstream\<close> reaches an empty queue after
  finitely many iterations of its body, and what it has then collected is the value returned.
\<close>

theorem cyclic_upstream_terminates:
  "get_upstream cyclic_query ''A'' 5 = [event_E2, event_E1] \<and>
   count_list (get_upstream cyclic_query ''A'' 5) event_E1 = 1 \<and>
   count_list (get_upstream cyclic_query ''A'' 5) event_E2 = 1 \<and>
   (\<exists>n. queue ((traverse_step (by_output q) input_assets depth ^^ n) (traverse_start loc)) = [] \<and>
        result ((traverse_step (by_output q) input_assets depth ^^ n) (traverse_start loc))
          = get_upstream q loc depth) \<and>
   (\<exists>n. queue ((traverse_step (by_input q) output_assets depth ^^ n) (traverse_start loc)) = [] \<and>
        result ((traverse_step (by_input q) output_assets depth ^^ n) (traverse_start loc))
          = get_downstream q loc depth)"
proof -
  have up: "get_upstream cyclic_query ''A'' 5 = [event_E2, event_E1]"
    unfolding get_upstream_def by_output_cyclic traverse_start_def
    by (simp add: traverse_loop.simps traverse_step_def Let_def index_get_def location_of_def
        event_E1_def event_E2_def asset_A_def asset_B_def)
  have neq: "event_E1 \<noteq> event_E2"
    by (simp add: event_E1_def event_E2_def)
  obtain n where n: "queue ((traverse_step (by_output q) input_assets depth ^^ n) (traverse_start loc)) = []"
    "(traverse_step (by_output q) input_assets depth ^^ n) (traverse_start loc)
       = traverse_loop (by_output q) input_assets depth (traverse_start loc)"
    using traverse_loop_iterates by blast
  obtain m where m: "queue ((traverse_step (by_input q) output_assets depth ^^ m) (traverse_start loc)) = []"
    "(traverse_step (by_input q) output_assets depth ^^ m) (traverse_start loc)
       = traverse_loop (by_input q) output_assets depth (traverse_start loc)"
    using traverse_loop_iterates by blast
  have "\<exists>n. queue ((traverse_step (by_output q) input_assets depth ^^ n) (traverse_start loc)) = [] \<and>
        result ((traverse_step (by_output q) input_assets depth ^^ n) (traverse_start loc))
          = get_upstream q loc depth"
    using n by (intro exI[of _ n]) (simp add: get_upstream_def)
  moreover have "\<exists>n. queue ((traverse_step (by_input q) output_assets depth ^^ n) (traverse_start loc)) = [] \<and>
        result ((traverse_step (by_input q) output_assets depth ^^ n) (traverse_start loc))
          = get_downstream q loc depth"
    using m by (intro exI[of _ m]) (simp add: get_downstream_def)
  ultimately show ?thesis
    using up neq by simp
qed

text \<open>
  C10, as stated, fails: the event below has one distinct output location, \<open>A\<close>, which is
  visited once, and occurs twice in the upstream of \<open>A\<close>, because it lists two output
  assets at \<open>A\<close>.
\<close>

theorem one_location_two_occurrences:
  "get_upstream (LineageQuery_init [event_two_parts]) ''A'' 10 = [event_two_parts, event_two_parts] \<and>
   remdups (map location_of (output_assets event_two_parts)) = [''A'']"
proof -
  have "get_upstream (LineageQuery_init [event_two_parts]) ''A'' 10 = [event_two_parts, event_two_parts]"
    unfolding get_upstream_def by_output_two_parts traverse_start_def
    by (simp add: traverse_loop.simps traverse_step_def Let_def index_get_def location_of_def
        event_two_parts_def)
  then show ?thesis
    by (simp add: event_two_parts_def location_of_def)
qed

text \<open>
  C10, amended. In the list returned by \<open>get_upstream\<close>, an event occurs once for each of
  its output assets whose location was visited, times the number of times the event is
  in the batch; a location that the event lists twice counts twice. \<open>get_downstream\<close> is
  the mirror, with the input assets of the event.
\<close>

theorem occurrences_per_visited_asset:
  "count_list (get_upstream (LineageQuery_init recs) loc depth) e =
     count_list recs e *
       length (filter (\<lambda>a. location_of a \<in> upstream_visited (LineageQuery_init recs) loc depth)
                 (output_assets e)) \<and>
   count_list (get_downstream (LineageQuery_init recs) loc depth) e =
     count_list recs e *
       length (filter (\<lambda>a. location_of a \<in> downstream_visited (LineageQuery_init recs) loc depth)
                 (input_assets e))"
proof -
  let ?q = "LineageQuery_init recs"
  let ?up = "traverse_loop (by_output ?q) input_assets depth (traverse_start loc)"
  let ?down = "traverse_loop (by_input ?q) output_assets depth (traverse_start loc)"
  have up: "finite (visited ?up)"
    "count_list (result ?up) e = (\<Sum>l\<in>visited ?up. count_list (index_get (by_output ?q) l) e)"
    using traverse_count_from_start[of "by_output ?q" input_assets depth loc e] by auto
  have down: "finite (visited ?down)"
    "count_list (result ?down) e = (\<Sum>l\<in>visited ?down. count_list (index_get (by_input ?q) l) e)"
    using traverse_count_from_start[of "by_input ?q" output_assets depth loc e] by auto
  have "count_list (result ?up) e =
          count_list recs e * length (filter (\<lambda>a. location_of a \<in> visited ?up) (output_assets e))"
    unfolding up(2) count_by_output sum_distrib_left[symmetric]
    by (simp only: sum_count_locations[OF up(1)])
  moreover have "count_list (result ?down) e =
          count_list recs e * length (filter (\<lambda>a. location_of a \<in> visited ?down) (input_assets e))"
    unfolding down(2) count_by_input sum_distrib_left[symmetric]
    by (simp only: sum_count_locations[OF down(1)])
  ultimately show ?thesis
    by (simp add: get_upstream_def upstream_visited_def get_downstream_def downstream_visited_def)
qed

end
